theory Spec2Isabelle
  imports Complex_Main "HOL-Library.Multiset"
begin

section \<open>Exceptions\<close>

text \<open>
  The pipeline of \<^verbatim>\<open>mpipeline/pipeline.py\<close> moves Python exceptions between worker
  slots and the controller. The handlers of the source tell exceptions apart by class
  (\<^verbatim>\<open>except Exception\<close>, \<^verbatim>\<open>except BaseException\<close>, \<^verbatim>\<open>except WorkerException\<close>) and,
  in one place, by their string form, so an exception is a class together with its
  message. The classes of \<open>exception_class\<close> are \<^verbatim>\<open>Exception\<close> and subclasses of it;
  a class of \<open>exc_class\<close> is one of these (\<open>Ordinary\<close>) or one of three classes that
  derive from \<^verbatim>\<open>BaseException\<close> only. \<open>is_Exception\<close> is Python's
  \<^verbatim>\<open>isinstance(e, Exception)\<close>.
\<close>

datatype exception_class =
    Exception_cls | ValueError_cls | RuntimeError_cls | ZeroDivisionError_cls
  | IndexError_cls | TypeError_cls

datatype exc_class =
    Ordinary exception_class | KeyboardInterrupt_cls | SystemExit_cls | GeneratorExit_cls

datatype py_exc = PyExc (exc_cls: exc_class) (exc_msg: string)

fun is_Exception :: "exc_class \<Rightarrow> bool" where
  "is_Exception (Ordinary c) = True"
| "is_Exception KeyboardInterrupt_cls = False"
| "is_Exception SystemExit_cls = False"
| "is_Exception GeneratorExit_cls = False"

text \<open>\<^verbatim>\<open>str(e)\<close> of an exception built from one message is that message.\<close>

definition str_exc :: "py_exc \<Rightarrow> string" where
  "str_exc e = exc_msg e"

text \<open>\<^verbatim>\<open>FORCE_EXIT_EXCEPTION=Exception("Force exit signal received")\<close>\<close>

definition FORCE_EXIT_EXCEPTION :: py_exc where
  "FORCE_EXIT_EXCEPTION = PyExc (Ordinary Exception_cls) ''Force exit signal received''"

text \<open>
  Modelled from the spec: the class \<^verbatim>\<open>WorkerException\<close> lives in
  \<^verbatim>\<open>worker_exception.py\<close>, which is not among the sources. The spec gives it as the
  triple (original error, worker type name, offending input or none); the source builds
  it as \<^verbatim>\<open>WorkerException(e, name, inp)\<close> and reads \<^verbatim>\<open>e.orig_exc\<close>.
\<close>

datatype 'a worker_exception =
  WorkerException (orig_exc: py_exc) (worker_name: string) (offending_input: "'a option")

text \<open>
  What can travel through the generator chain and leave \<^verbatim>\<open>run\<close>: a
  \<^verbatim>\<open>WorkerException\<close>, any other exception, or the error that
  \<^verbatim>\<open>WorkerException.re_raise\<close> raises.
\<close>

datatype 'a exc =
    WorkerExc "'a worker_exception"
  | PlainExc py_exc
  | AnnotatedExc py_exc string "'a option"

text \<open>
  Modelled from the spec: \<^verbatim>\<open>WorkerException.re_raise\<close> is defined in the missing
  \<^verbatim>\<open>worker_exception.py\<close>. By the spec it raises the original error annotated with the
  failing worker's type name and the offending input.
\<close>

definition re_raise :: "'a worker_exception \<Rightarrow> 'a exc" where
  "re_raise e = AnnotatedExc (orig_exc e) (worker_name e) (offending_input e)"

section \<open>Workers and stages\<close>

text \<open>
  Modelled from the spec: the worker contract (\<^verbatim>\<open>worker.py\<close> is not among the sources).
  A worker class is supplied by the caller; the model keeps what the pipeline observes of
  it: \<^verbatim>\<open>__class__.__name__\<close>, the hook \<^verbatim>\<open>__process__\<close> as a function that returns or
  raises, what \<^verbatim>\<open>__dispose__\<close> raises (if anything), and the time that the two
  \<^verbatim>\<open>perf_counter()\<close> readings around \<^verbatim>\<open>__process__\<close> measure for an input. Workers
  are taken to construct and to pass \<^verbatim>\<open>__local_init__\<close>: a slot whose initializer raises
  ends, the pool starts a replacement, and no task of that pool is ever served.

  \<^verbatim>\<open>__process__\<close> may raise any exception: \<^verbatim>\<open>_process_item\<close> catches
  \<^verbatim>\<open>BaseException\<close>. \<^verbatim>\<open>__dispose__\<close> runs as a pool task of its own, and a pool slot
  catches \<^verbatim>\<open>Exception\<close> only: what \<^verbatim>\<open>__dispose__\<close> raises is therefore given by a
  class of \<open>exception_class\<close> and a message. A \<^verbatim>\<open>__dispose__\<close> that raises outside
  \<^verbatim>\<open>Exception\<close> ends its slot, and the call that waits for the task never returns; the
  type leaves that case out.
\<close>

record 'a worker_class =
  cls_name :: string
  process :: "'a \<Rightarrow> py_exc + 'a"
  dispose :: "(exception_class \<times> string) option"
  process_time :: "'a \<Rightarrow> real"

text \<open>The exception that an invocation of \<^verbatim>\<open>__dispose__\<close> raises, if any.\<close>

definition dispose_exc :: "'a worker_class \<Rightarrow> py_exc option" where
  "dispose_exc w = (case dispose w of None \<Rightarrow> None | Some (c, m) \<Rightarrow> Some (PyExc (Ordinary c) m))"

datatype mode = Thread | Process

text \<open>
  Modelled from the spec: \<^verbatim>\<open>Stage\<close> (\<^verbatim>\<open>stage.py\<close>, not among the sources) is an
  immutable descriptor, read by the pipeline through \<^verbatim>\<open>worker_class\<close>, \<^verbatim>\<open>mode\<close> and
  \<^verbatim>\<open>worker_count\<close> (at least one); the constructor arguments of the worker are part of
  \<open>worker_class\<close> here.
\<close>

record 'a stage =
  worker_class :: "'a worker_class"
  mode :: mode
  worker_count :: nat

section \<open>Processing one item in a slot\<close>

text \<open>
  \<^verbatim>\<open>_process_item(args)\<close>, run in a pool slot. The first argument is the value of
  \<^verbatim>\<open>force_exit.value\<close> that the slot reads. The result pairs the list of payloads on
  which \<^verbatim>\<open>__process__\<close> was invoked by this call with what the call returns
  (\<open>Inr (seq_num, result, process_time)\<close>) or raises (\<open>Inl\<close>).
\<close>

definition process_item ::
  "bool \<Rightarrow> 'a worker_class \<Rightarrow> nat \<times> 'a \<Rightarrow> 'a list \<times> ('a exc + nat \<times> 'a \<times> real)" where
  "process_item force_exit w args =
     (if force_exit
      then ([], Inl (WorkerExc (WorkerException FORCE_EXIT_EXCEPTION (cls_name w) None)))
      else (case args of (seq_num, inp) \<Rightarrow>
        (case process w inp of
           Inr result \<Rightarrow> ([inp], Inr (seq_num, result, process_time w inp))
         | Inl e \<Rightarrow> ([inp], Inl (WorkerExc (WorkerException e (cls_name w) (Some inp)))))))"

section \<open>Progress reporting\<close>

text \<open>
  \<^verbatim>\<open>PipelineTQDM\<close> of \<^verbatim>\<open>pipeline_tqdm.py\<close>. A \<^verbatim>\<open>tqdm\<close> bar is an object of an
  external library; it is represented by its screen position, and drawing on it
  (\<^verbatim>\<open>update\<close>, \<^verbatim>\<open>set_postfix_str\<close>, \<^verbatim>\<open>close\<close>) is taken to succeed and leaves no mark
  in the model. The field \<^verbatim>\<open>stages\<close> is used for its length and for bar captions only,
  so the record keeps the length; \<^verbatim>\<open>stage_start_times\<close> is never read and is left out.
  Times are Python floats, read here as reals.
\<close>

record pipeline_tqdm =
  n_stages :: nat
  show_progress :: bool
  show_stage_progress :: bool
  progress_bars :: "nat list"
  stage_pbars :: "nat list"
  stage_times :: "real list list"
  stage_processed :: "int list"
  stage_total_times :: "real list"
  total_n :: "nat option"

text \<open>Python's truth value of \<^verbatim>\<open>self.total\<close>: neither \<^verbatim>\<open>None\<close> nor \<open>0\<close>.\<close>

fun truthy :: "nat option \<Rightarrow> bool" where
  "truthy None = False"
| "truthy (Some n) = (0 < n)"

definition init_progress_bars :: "pipeline_tqdm \<Rightarrow> pipeline_tqdm" where
  "init_progress_bars tq =
     (if show_progress tq then
        (let tq1 = tq\<lparr>progress_bars := progress_bars tq @ [0]\<rparr> in
         if show_stage_progress tq1 \<and> truthy (total_n tq1) then
           (let tq2 = tq1\<lparr>stage_pbars := stage_pbars tq1 @ map Suc [0..<n_stages tq1]\<rparr>
            in tq2\<lparr>progress_bars := progress_bars tq2 @ stage_pbars tq2\<rparr>)
         else tq1)
      else tq)"

definition PipelineTQDM :: "nat \<Rightarrow> bool \<Rightarrow> bool \<Rightarrow> nat option \<Rightarrow> pipeline_tqdm" where
  "PipelineTQDM n sp ssp tot =
     init_progress_bars
       \<lparr>n_stages = n, show_progress = sp, show_stage_progress = ssp,
        progress_bars = [], stage_pbars = [],
        stage_times = replicate n [], stage_processed = replicate n 0,
        stage_total_times = replicate n 0, total_n = tot\<rparr>"

text \<open>\<^verbatim>\<open>deque(maxlen=100).append\<close>: the oldest entry leaves when the window is full.\<close>

definition deque_append :: "real list \<Rightarrow> real \<Rightarrow> real list" where
  "deque_append d x = (let d' = d @ [x] in drop (length d' - 100) d')"

text \<open>
  \<^verbatim>\<open>update_stage_progress(stage_idx, result_time)\<close>, returning the exception it raises
  (if any) and the updated object. The statements are kept in the order of the source:
  the early return, the three indexed updates (each raising \<^verbatim>\<open>IndexError\<close> out of
  range), \<^verbatim>\<open>avg_time\<close>, \<^verbatim>\<open>rate = 1 / avg_time if avg_time > 0 else 0\<close>, and then
  \<^verbatim>\<open>rate_str\<close>, which for \<^verbatim>\<open>rate >= 1\<close> formats \<^verbatim>\<open>rate\<close> and otherwise evaluates
  \<^verbatim>\<open>1/rate\<close>. The values \<^verbatim>\<open>waiting\<close>, \<^verbatim>\<open>remaining\<close> and the formatted strings only
  feed the bar's caption.
\<close>

definition update_stage_progress ::
  "pipeline_tqdm \<Rightarrow> nat \<Rightarrow> real \<Rightarrow> py_exc option \<times> pipeline_tqdm" where
  "update_stage_progress tq stage_idx result_time =
     (if show_progress tq \<and> show_stage_progress tq \<and> stage_pbars tq \<noteq> [] then
        (if stage_idx < length (stage_processed tq) then
           (let tq1 = tq\<lparr>stage_processed :=
                         (stage_processed tq)[stage_idx := stage_processed tq ! stage_idx + 1]\<rparr> in
            if stage_idx < length (stage_times tq1) then
              (let tq2 = tq1\<lparr>stage_times :=
                            (stage_times tq1)[stage_idx :=
                               deque_append (stage_times tq1 ! stage_idx) result_time]\<rparr> in
               if stage_idx < length (stage_total_times tq2) then
                 (let tq3 = tq2\<lparr>stage_total_times :=
                               (stage_total_times tq2)[stage_idx :=
                                  stage_total_times tq2 ! stage_idx + result_time]\<rparr>;
                      avg_time = sum_list (stage_times tq3 ! stage_idx)
                                   / real (length (stage_times tq3 ! stage_idx));
                      rate = (if avg_time > 0 then 1 / avg_time else 0)
                  in if rate \<ge> 1 then
                       (if stage_idx < length (stage_pbars tq3) then (None, tq3)
                        else (Some (PyExc (Ordinary IndexError_cls) ''list index out of range''), tq3))
                     else if rate = 0 then
                       (Some (PyExc (Ordinary ZeroDivisionError_cls) ''division by zero''), tq3)
                     else
                       (if stage_idx < length (stage_pbars tq3) then (None, tq3)
                        else (Some (PyExc (Ordinary IndexError_cls) ''list index out of range''), tq3)))
               else (Some (PyExc (Ordinary IndexError_cls) ''list index out of range''), tq2))
            else (Some (PyExc (Ordinary IndexError_cls) ''list index out of range''), tq1))
         else (Some (PyExc (Ordinary IndexError_cls) ''list index out of range''), tq))
      else (None, tq))"

text \<open>
  The truth value of a \<^verbatim>\<open>tqdm\<close> bar that was created from a total and no iterable, as
  all bars of \<^verbatim>\<open>init_progress_bars\<close> are: \<^verbatim>\<open>tqdm.__bool__\<close> returns \<^verbatim>\<open>total > 0\<close> when
  the total is known and raises \<^verbatim>\<open>TypeError\<close> when it is \<^verbatim>\<open>None\<close>.
\<close>

definition tqdm_bool :: "nat option \<Rightarrow> py_exc + bool" where
  "tqdm_bool tot =
     (case tot of
        Some n \<Rightarrow> Inr (0 < n)
      | None \<Rightarrow> Inl (PyExc (Ordinary TypeError_cls)
                       ''bool() undefined when iterable == total == None''))"

text \<open>
  The loop of \<^verbatim>\<open>cleanup\<close> over \<^verbatim>\<open>self.progress_bars\<close>, every bar of which has the total
  \<^verbatim>\<open>self.total\<close>: the test \<^verbatim>\<open>if pbar:\<close> stands outside the \<^verbatim>\<open>try\<close>, so what it raises
  leaves the loop; a bar that is true is closed, and errors of \<^verbatim>\<open>close\<close> are passed over.
\<close>

fun close_bars :: "nat option \<Rightarrow> nat list \<Rightarrow> py_exc option" where
  "close_bars tot [] = None"
| "close_bars tot (pbar # rest) =
     (case tqdm_bool tot of Inl e \<Rightarrow> Some e | Inr b \<Rightarrow> close_bars tot rest)"

text \<open>
  \<^verbatim>\<open>cleanup\<close>: the exception it raises (if any) and the object it leaves; the two lists
  are emptied after the loop.
\<close>

definition cleanup :: "pipeline_tqdm \<Rightarrow> py_exc option \<times> pipeline_tqdm" where
  "cleanup tq =
     (case close_bars (total_n tq) (progress_bars tq) of
        Some e \<Rightarrow> (Some e, tq)
      | None \<Rightarrow> (None, tq\<lparr>progress_bars := [], stage_pbars := []\<rparr>))"

section \<open>One stage: the pool's result stream and its consumer\<close>

text \<open>
  The data handed from one stage to the next is a stream: the \<open>(seq_num, payload)\<close>
  pairs it yields and, if iterating it ends in an exception, that exception.

  \<^verbatim>\<open>pool.imap(_process_item, current_data)\<close> turns every element of its input into one
  task; an input iterator that raises becomes one more task, which raises the same
  exception in a slot (the pool's guarded task generation), so the failure of a stage
  reaches the consumer of the next one. \<open>task_results\<close> lists what the tasks return or
  raise, in task order, for the value of the force-exit flag that the slots read;
  \<open>task_calls\<close> lists the payloads on which they invoke \<^verbatim>\<open>__process__\<close>.
  Exceptions are taken to cross pool boundaries unchanged, as they do between threads.
\<close>

type_synonym 'a stream = "(nat \<times> 'a) list \<times> 'a exc option"

definition task_results ::
  "bool \<Rightarrow> 'a worker_class \<Rightarrow> 'a stream \<Rightarrow> ('a exc + nat \<times> 'a \<times> real) list" where
  "task_results force_exit w src =
     map (\<lambda>a. snd (process_item force_exit w a)) (fst src)
       @ (case snd src of None \<Rightarrow> [] | Some e \<Rightarrow> [Inl e])"

definition task_calls :: "bool \<Rightarrow> 'a worker_class \<Rightarrow> 'a stream \<Rightarrow> 'a list" where
  "task_calls force_exit w src = concat (map (\<lambda>a. fst (process_item force_exit w a)) (fst src))"

text \<open>
  \<^verbatim>\<open>imap\<close> delivers the results in task order. \<^verbatim>\<open>imap_unordered\<close> delivers them in
  completion order: \<open>rank k\<close> is the instant at which task \<open>k\<close> completes, and tasks that
  complete together come in task order.
\<close>

definition imap_unordered :: "(nat \<Rightarrow> nat) \<Rightarrow> 'r list \<Rightarrow> 'r list" where
  "imap_unordered rank rs = map snd (sort_key fst (zip (map rank [0..<length rs]) rs))"

text \<open>
  \<^verbatim>\<open>_process_stage\<close>, as the stream it produces from the delivered results together with
  the progress object it leaves. Advancing the pool's iterator raises what the task
  raised, which ends the generator; the two \<^verbatim>\<open>isinstance\<close> tests of the source never
  fire, since \<^verbatim>\<open>_process_item\<close> raises its \<^verbatim>\<open>WorkerException\<close> and returns triples only.
  \<^verbatim>\<open>self._progress\<close> holds an object throughout the loop. The last stage yields
  \<^verbatim>\<open>data\<close> alone: \<open>run\<close> below drops the sequence numbers.
\<close>

fun process_stage ::
  "bool \<Rightarrow> pipeline_tqdm \<Rightarrow> nat \<Rightarrow> ('a exc + nat \<times> 'a \<times> real) list
     \<Rightarrow> 'a stream \<times> pipeline_tqdm" where
  "process_stage running tq stage_idx [] = (([], None), tq)"
| "process_stage running tq stage_idx (Inl e # rest) = (([], Some e), tq)"
| "process_stage running tq stage_idx (Inr (seq_num, data, proc_time) # rest) =
     (if running then
        (case update_stage_progress tq stage_idx proc_time of
           (Some pe, tq') \<Rightarrow> (([], Some (PlainExc pe)), tq')
         | (None, tq') \<Rightarrow>
             (case process_stage running tq' stage_idx rest of
                ((ys, err), tq'') \<Rightarrow> (((seq_num, data) # ys, err), tq'')))
      else (([], None), tq))"

section \<open>The environment of a run\<close>

text \<open>
  What the source leaves to the scheduler and to the operating system:
  \<open>completion i k\<close>, the instant at which task \<open>k\<close> of stage \<open>i\<close> completes;
  \<open>cleanup_slot i k\<close>, the slot of pool \<open>i\<close> that takes the \<open>k\<close>-th task of the
  disposal broadcast; and what each pool operation of the teardown raises, if anything.
\<close>

record env =
  completion :: "nat \<Rightarrow> nat \<Rightarrow> nat"
  cleanup_slot :: "nat \<Rightarrow> nat \<Rightarrow> nat"
  terminate_exc :: "nat \<Rightarrow> py_exc option"
  close_exc :: "nat \<Rightarrow> py_exc option"
  join_exc :: "nat \<Rightarrow> py_exc option"
  terminate_again_exc :: "nat \<Rightarrow> py_exc option"

text \<open>
  One stage of the loop in \<^verbatim>\<open>run\<close>: the pool maps \<^verbatim>\<open>_process_item\<close> over
  \<open>current_data\<close>, ordered or not, and \<^verbatim>\<open>_process_stage\<close> consumes the results.
  \<^verbatim>\<open>self._running\<close> is true from the entry of \<^verbatim>\<open>run\<close> until one of its handlers runs.
\<close>

definition run_stage ::
  "env \<Rightarrow> bool \<Rightarrow> bool \<Rightarrow> pipeline_tqdm \<Rightarrow> nat \<Rightarrow> 'a stage \<Rightarrow> 'a stream
     \<Rightarrow> 'a stream \<times> pipeline_tqdm" where
  "run_stage env force_exit ordered_result tq stage_idx st current_data =
     (let rs = task_results force_exit (worker_class st) current_data;
          results_iter = (if ordered_result then rs
                          else imap_unordered (completion env stage_idx) rs)
      in process_stage True tq stage_idx results_iter)"

text \<open>
  The loop over the stages, from stage \<open>stage_idx\<close> on: the stream of each stage is the
  input of the next (\<open>pools[i]\<close> is the pool of \<open>stages[i]\<close>). The result is the stream
  of the last stage, the progress object, and every invocation of \<^verbatim>\<open>__process__\<close>
  (stage index and payload) that the pools make when each serves all the tasks submitted
  to it; a teardown that comes earlier can only cut these short.
\<close>

fun run_stages ::
  "env \<Rightarrow> bool \<Rightarrow> bool \<Rightarrow> nat \<Rightarrow> 'a stage list \<Rightarrow> 'a stream \<Rightarrow> pipeline_tqdm
     \<Rightarrow> 'a stream \<times> pipeline_tqdm \<times> (nat \<times> 'a) list" where
  "run_stages env force_exit ordered_result stage_idx [] current_data tq =
     (current_data, tq, [])"
| "run_stages env force_exit ordered_result stage_idx (st # sts) current_data tq =
     (case run_stage env force_exit ordered_result tq stage_idx st current_data of
        (out, tq') \<Rightarrow>
          (case run_stages env force_exit ordered_result (Suc stage_idx) sts out tq' of
             (res, tq'', calls) \<Rightarrow>
               (res, tq'',
                map (Pair stage_idx) (task_calls force_exit (worker_class st) current_data)
                  @ calls)))"

section \<open>The pipeline object and its pools\<close>

text \<open>
  A pool is known by the index of its stage, the stage it was created for
  (\<^verbatim>\<open>initargs=(stage, idx)\<close>) and its number of slots (\<^verbatim>\<open>pool._processes\<close>). Thread pools
  and process pools are driven through the same calls. \<^verbatim>\<open>_contexts\<close> caches the
  start method of process pools and is not part of the model.
\<close>

record 'a pool =
  pool_idx :: nat
  pool_stage :: "'a stage"
  processes :: nat

record 'a pipeline =
  stages :: "'a stage list"
  pools :: "'a pool list"
  running :: bool
  progress :: "pipeline_tqdm option"

text \<open>\<^verbatim>\<open>Pipeline(stage)\<close>, \<^verbatim>\<open>then\<close> and the operator \<^verbatim>\<open>|\<close>.\<close>

definition Pipeline :: "'a stage \<Rightarrow> 'a pipeline" where
  "Pipeline st = \<lparr>stages = [st], pools = [], running = False, progress = None\<rparr>"

definition then_stage :: "'a pipeline \<Rightarrow> 'a stage \<Rightarrow> 'a pipeline" where
  "then_stage p st = p\<lparr>stages := stages p @ [st]\<rparr>"

text \<open>
  What the controller and the slots do to pools and workers is recorded as a list of
  events: a pool is created, the initializer \<^verbatim>\<open>_init_worker\<close> builds the worker of a
  slot, \<^verbatim>\<open>__dispose__\<close> is invoked on the worker of a slot, \<^verbatim>\<open>terminate\<close>, \<^verbatim>\<open>close\<close> or
  \<^verbatim>\<open>join\<close> is called on a pool, \<^verbatim>\<open>warnings.warn\<close> is called with a message.
\<close>

datatype event =
    PoolCreated nat
  | WorkerConstructed nat nat
  | Disposed nat nat
  | TerminateCall nat
  | CloseCall nat
  | JoinCall nat
  | Warning string

text \<open>
  \<^verbatim>\<open>_init_pools\<close>: one pool per stage, each starting \<^verbatim>\<open>worker_count\<close> slots that run
  \<^verbatim>\<open>_init_worker\<close>. The pool constructors are taken to succeed (\<^verbatim>\<open>worker_count\<close> is at
  least one for every \<^verbatim>\<open>Stage\<close>), so the \<^verbatim>\<open>except\<close> branch of the source has no
  counterpart here.
\<close>

definition new_pool :: "nat \<times> 'a stage \<Rightarrow> 'a pool" where
  "new_pool a = (case a of (idx, st) \<Rightarrow>
     \<lparr>pool_idx = idx, pool_stage = st, processes = worker_count st\<rparr>)"

definition pool_start_events :: "'a pool \<Rightarrow> event list" where
  "pool_start_events pool =
     PoolCreated (pool_idx pool) # map (WorkerConstructed (pool_idx pool)) [0..<processes pool]"

definition init_pools :: "'a pipeline \<Rightarrow> event list \<times> 'a pipeline" where
  "init_pools p =
     (let created = map new_pool (enumerate 0 (stages p))
      in (concat (map pool_start_events created), p\<lparr>pools := created\<rparr>))"

section \<open>Teardown\<close>

text \<open>
  A step of the teardown produces events and either returns or raises. The combinators
  follow Python's statement sequence, \<^verbatim>\<open>try/except\<close> (with the test that selects the
  exceptions the clause catches) and \<^verbatim>\<open>try/finally\<close>.
\<close>

type_synonym act = "event list \<times> (py_exc + unit)"

definition skip :: act where
  "skip = ([], Inr ())"

definition call :: "event \<Rightarrow> py_exc option \<Rightarrow> act" where
  "call ev r = ([ev], case r of None \<Rightarrow> Inr () | Some e \<Rightarrow> Inl e)"

definition then_act :: "act \<Rightarrow> act \<Rightarrow> act" where
  "then_act a b = (case snd a of Inl e \<Rightarrow> a | Inr u \<Rightarrow> (fst a @ fst b, snd b))"

definition try_except :: "act \<Rightarrow> (py_exc \<Rightarrow> bool) \<Rightarrow> (py_exc \<Rightarrow> act) \<Rightarrow> act" where
  "try_except body catches handler =
     (case snd body of
        Inl e \<Rightarrow> (if catches e then (fst body @ fst (handler e), snd (handler e)) else body)
      | Inr u \<Rightarrow> body)"

definition try_finally :: "act \<Rightarrow> act \<Rightarrow> act" where
  "try_finally body fin =
     (fst body @ fst fin, case snd fin of Inl e \<Rightarrow> Inl e | Inr u \<Rightarrow> snd body)"

text \<open>
  \<^verbatim>\<open>_cleanup_worker\<close> in a slot: \<^verbatim>\<open>hasattr(_local, 'worker')\<close> holds in the slots that
  the pool started, and there \<^verbatim>\<open>__dispose__\<close> is invoked.
\<close>

definition cleanup_worker :: "'a pool \<Rightarrow> nat \<Rightarrow> act" where
  "cleanup_worker pool slot =
     (if slot < processes pool
      then call (Disposed (pool_idx pool) slot) (dispose_exc (worker_class (pool_stage pool)))
      else skip)"

text \<open>
  \<^verbatim>\<open>pool.map(_cleanup_worker, [None] * pool._processes)\<close>: as many tasks as the pool has
  slots, each run by the slot that picks it up. \<^verbatim>\<open>map\<close> waits for all tasks and then
  raises the exception of the first task that failed, which the pool has handed back
  to it.
\<close>

fun first_error :: "(py_exc + unit) list \<Rightarrow> py_exc + unit" where
  "first_error [] = Inr ()"
| "first_error (Inl e # rs) = Inl e"
| "first_error (Inr u # rs) = first_error rs"

definition pool_map_cleanup :: "env \<Rightarrow> 'a pool \<Rightarrow> act" where
  "pool_map_cleanup env pool =
     (let rs = map (\<lambda>k. cleanup_worker pool (cleanup_slot env (pool_idx pool) k))
                 [0..<processes pool]
      in (concat (map fst rs), first_error (map snd rs)))"

text \<open>
  The body of the loop of \<^verbatim>\<open>_stop_pools\<close> for one pool. A pool object is true and has
  the attributes \<^verbatim>\<open>_pool\<close> and \<^verbatim>\<open>terminate\<close>, so the three guards of the source hold.
  \<^verbatim>\<open>warnings.warn\<close> is taken to record the warning and return, as it does under the
  default warning filters.
\<close>

definition stop_pool :: "env \<Rightarrow> 'a pool \<Rightarrow> act" where
  "stop_pool env pool =
     (let i = pool_idx pool in
      try_finally
        (try_except
           (then_act
              (try_except (pool_map_cleanup env pool)
                 (\<lambda>e. exc_cls e = KeyboardInterrupt_cls \<or> is_Exception (exc_cls e))
                 (\<lambda>e. skip))
              (then_act (call (TerminateCall i) (terminate_exc env i))
                 (then_act (call (CloseCall i) (close_exc env i))
                    (call (JoinCall i) (join_exc env i)))))
           (\<lambda>e. True)
           (\<lambda>e. call (Warning (''Error during pool cleanup: '' @ str_exc e)) None))
        (try_except (call (TerminateCall i) (terminate_again_exc env i))
           (\<lambda>e. True)
           (\<lambda>e. skip)))"

fun stop_pools_loop :: "env \<Rightarrow> 'a pool list \<Rightarrow> act" where
  "stop_pools_loop env [] = skip"
| "stop_pools_loop env (pool # rest) = then_act (stop_pool env pool) (stop_pools_loop env rest)"

text \<open>
  \<^verbatim>\<open>_stop_pools\<close>: the events, the exception that leaves the method (if any), and the
  pipeline object; \<^verbatim>\<open>self._pools = []\<close> is reached when the loop does not raise.
\<close>

definition stop_pools :: "env \<Rightarrow> 'a pipeline \<Rightarrow> event list \<times> py_exc option \<times> 'a pipeline" where
  "stop_pools env p =
     (case stop_pools_loop env (pools p) of
        (evs, Inl e) \<Rightarrow> (evs, Some e, p)
      | (evs, Inr u) \<Rightarrow> (evs, None, p\<lparr>pools := []\<rparr>))"

section \<open>Running the pipeline\<close>

text \<open>
  The input of \<^verbatim>\<open>run\<close> is a finite iterable, with or without \<^verbatim>\<open>__len__\<close>. The
  argument \<^verbatim>\<open>progress\<close> is \<^verbatim>\<open>'total'\<close>, \<^verbatim>\<open>'stage'\<close> or \<^verbatim>\<open>None\<close>.
\<close>

datatype 'a iterable = Sized "'a list" | Unsized "'a list"

fun items :: "'a iterable \<Rightarrow> 'a list" where
  "items (Sized xs) = xs"
| "items (Unsized xs) = xs"

fun len_opt :: "'a iterable \<Rightarrow> nat option" where
  "len_opt (Sized xs) = Some (length xs)"
| "len_opt (Unsized xs) = None"

datatype progress_type = Progress_total | Progress_stage

text \<open>
  \<^verbatim>\<open>run\<close> is a generator function: its body starts when the caller first advances the
  iterator it returns, and a caller that never advances it runs none of the body. The
  callers of the model advance it: \<open>Exhaust\<close> takes every item; \<open>Abandon k\<close> takes
  \<open>k + 1\<close> items and then closes the iterator (or drops it), which raises
  \<^verbatim>\<open>GeneratorExit\<close> at the \<^verbatim>\<open>yield\<close> where the generator is suspended.
\<close>

datatype consumer = Exhaust | Abandon nat

definition GENERATOR_EXIT :: py_exc where
  "GENERATOR_EXIT = PyExc GeneratorExit_cls []"

text \<open>
  \<open>consume c outs err\<close>: the items the caller receives from a generator that would yield
  \<open>outs\<close> and then end with \<open>err\<close>, and the exception raised inside the \<^verbatim>\<open>try\<close> block
  of \<^verbatim>\<open>run\<close>, if any.
\<close>

fun consume :: "consumer \<Rightarrow> 'a list \<Rightarrow> 'a exc option \<Rightarrow> 'a list \<times> 'a exc option" where
  "consume Exhaust outs err = (outs, err)"
| "consume (Abandon k) outs err =
     (if Suc k \<le> length outs then (take (Suc k) outs, Some (PlainExc GENERATOR_EXIT))
      else (outs, err))"

text \<open>
  How the generator ends: it returns, or an exception leaves it (a \<^verbatim>\<open>GeneratorExit\<close>
  that leaves it ends the caller's \<^verbatim>\<open>close()\<close> quietly).
\<close>

datatype 'a outcome = Completed | Raised "'a exc"

text \<open>
  The two \<^verbatim>\<open>except\<close> clauses of \<^verbatim>\<open>run\<close>, from the flag at entry and the exception
  raised in the \<^verbatim>\<open>try\<close> block: the new value of \<^verbatim>\<open>force_exit\<close> and how the generator
  ends. The first clause compares \<^verbatim>\<open>str(e.orig_exc)\<close> with
  \<^verbatim>\<open>str(FORCE_EXIT_EXCEPTION)\<close>.
\<close>

fun handle :: "bool \<Rightarrow> 'a exc option \<Rightarrow> bool \<times> 'a outcome" where
  "handle force_exit None = (force_exit, Completed)"
| "handle force_exit (Some (WorkerExc e)) =
     (True, if str_exc (orig_exc e) = str_exc FORCE_EXIT_EXCEPTION then Completed
            else Raised (re_raise e))"
| "handle force_exit (Some (PlainExc e)) = (True, Raised (PlainExc e))"
| "handle force_exit (Some (AnnotatedExc e n i)) = (True, Raised (AnnotatedExc e n i))"

text \<open>
  What the \<^verbatim>\<open>try\<close> block of \<^verbatim>\<open>run\<close> produces for a caller that takes every item: the
  payloads of the last stage's stream and its final exception, the progress object, and
  the invocations of \<^verbatim>\<open>__process__\<close>. \<open>enumerate 0\<close> is Python's
  \<^verbatim>\<open>enumerate(inputs)\<close>.
\<close>

definition try_block ::
  "env \<Rightarrow> bool \<Rightarrow> 'a stage list \<Rightarrow> 'a iterable \<Rightarrow> bool \<Rightarrow> pipeline_tqdm
     \<Rightarrow> ('a list \<times> 'a exc option) \<times> pipeline_tqdm \<times> (nat \<times> 'a) list" where
  "try_block env force_exit sts inputs ordered_result tq =
     (case run_stages env force_exit ordered_result 0 sts (enumerate 0 (items inputs), None) tq of
        (res, tq', calls) \<Rightarrow> ((map snd (fst res), snd res), tq', calls))"

text \<open>
  The progress object that \<^verbatim>\<open>run\<close> creates:
  \<^verbatim>\<open>PipelineTQDM(self.stages, show_progress=progress != None,
  show_stage_progress=progress == 'stage', total=total)\<close>, where \<^verbatim>\<open>total\<close> is
  \<^verbatim>\<open>len(inputs)\<close> if the input has a length and \<^verbatim>\<open>None\<close> otherwise.
\<close>

definition new_progress ::
  "'a pipeline \<Rightarrow> 'a iterable \<Rightarrow> progress_type option \<Rightarrow> pipeline_tqdm" where
  "new_progress p inputs progress_arg =
     PipelineTQDM (length (stages p)) (progress_arg \<noteq> None)
       (progress_arg = Some Progress_stage) (len_opt inputs)"

record 'a run_result =
  yielded :: "'a list"
  outcome :: "'a outcome"
  force_exit_after :: bool
  pipeline_after :: "'a pipeline"
  events :: "event list"
  hook_calls :: "(nat \<times> 'a) list"

text \<open>
  \<^verbatim>\<open>Pipeline.run(inputs, ordered_result, progress)\<close> for one caller, started with the
  module-level flag \<^verbatim>\<open>force_exit\<close> at the given value. Within one run the flag is
  written by the handlers of \<^verbatim>\<open>run\<close> only, after the last item has been yielded, so
  every slot that contributes to the output reads the value at entry.

  The check of the stage list comes first and lies outside the \<^verbatim>\<open>try\<close> statement. Then
  \<open>tq\<close> is the progress object, \<open>started\<close> the effect of \<^verbatim>\<open>_init_pools\<close>, \<open>body\<close> the
  loop over the stages with the \<^verbatim>\<open>yield from\<close> of the last one (the test of
  \<^verbatim>\<open>self._running\<close> at the head of the loop never breaks it), \<open>got\<close> what the caller
  takes and \<open>handled\<close> the effect of the \<^verbatim>\<open>except\<close> clauses. The \<^verbatim>\<open>finally\<close> block
  sets \<^verbatim>\<open>self._running\<close>, calls \<^verbatim>\<open>self._progress.cleanup()\<close> (\<open>cleaned\<close>) and then
  \<^verbatim>\<open>self._stop_pools()\<close> (\<open>stopped\<close>). An exception that leaves the \<^verbatim>\<open>finally\<close> block
  replaces the pending one; when \<^verbatim>\<open>cleanup\<close> raises, \<^verbatim>\<open>_stop_pools\<close> is not reached and
  the pools stay as they are.
\<close>

definition run ::
  "env \<Rightarrow> bool \<Rightarrow> 'a pipeline \<Rightarrow> 'a iterable \<Rightarrow> bool \<Rightarrow> progress_type option \<Rightarrow> consumer
     \<Rightarrow> 'a run_result" where
  "run env force_exit p inputs ordered_result progress_arg c =
     (if stages p = [] then
        \<lparr>yielded = [],
         outcome = Raised (PlainExc (PyExc (Ordinary ValueError_cls) ''Pipeline has no stages'')),
         force_exit_after = force_exit, pipeline_after = p, events = [], hook_calls = []\<rparr>
      else
        (let tq = new_progress p inputs progress_arg;
             p1 = p\<lparr>running := True, progress := Some tq\<rparr>;
             started = init_pools p1;
             body = try_block env force_exit (stages (snd started)) inputs ordered_result tq;
             got = consume c (fst (fst body)) (snd (fst body));
             handled = handle force_exit (snd got);
             cleaned = cleanup (fst (snd body));
             p2 = (snd started)\<lparr>running := False, progress := Some (snd cleaned)\<rparr>;
             stopped = stop_pools env p2
         in (case fst cleaned of
               Some e \<Rightarrow>
                 \<lparr>yielded = fst got,
                  outcome = Raised (PlainExc e),
                  force_exit_after = fst handled,
                  pipeline_after = p2,
                  events = fst started,
                  hook_calls = snd (snd body)\<rparr>
             | None \<Rightarrow>
                 \<lparr>yielded = fst got,
                  outcome = (case fst (snd stopped) of
                               Some e \<Rightarrow> Raised (PlainExc e)
                             | None \<Rightarrow> snd handled),
                  force_exit_after = fst handled,
                  pipeline_after = snd (snd stopped),
                  events = fst started @ fst stopped,
                  hook_calls = snd (snd body)\<rparr>)))"

text \<open>The flag as the module creates it: \<^verbatim>\<open>force_exit = manager.Value('bool',False)\<close>.\<close>

definition force_exit_initial :: bool where
  "force_exit_initial = False"

text \<open>
  Runs that follow one another in the same host process share the flag: each starts with
  the value the previous one left. A request is the environment, the pipeline object and
  the arguments of one call.
\<close>

type_synonym 'a request =
  "env \<times> 'a pipeline \<times> 'a iterable \<times> bool \<times> progress_type option \<times> consumer"

fun run_seq :: "bool \<Rightarrow> 'a request list \<Rightarrow> 'a run_result list" where
  "run_seq force_exit [] = []"
| "run_seq force_exit ((env, p, inputs, ordered_result, progress_arg, c) # rest) =
     run env force_exit p inputs ordered_result progress_arg c
       # run_seq (force_exit_after (run env force_exit p inputs ordered_result progress_arg c)) rest"

text \<open>
  The exception raised inside the \<^verbatim>\<open>try\<close> block of \<^verbatim>\<open>run\<close> (for a pipeline with at
  least one stage), as the handlers of \<open>run\<close> receive it.
\<close>

definition raised_in_try ::
  "env \<Rightarrow> bool \<Rightarrow> 'a pipeline \<Rightarrow> 'a iterable \<Rightarrow> bool \<Rightarrow> progress_type option \<Rightarrow> consumer
     \<Rightarrow> 'a exc option" where
  "raised_in_try env force_exit p inputs ordered_result progress_arg c =
     (let tq = new_progress p inputs progress_arg;
          body = try_block env force_exit (stages p) inputs ordered_result tq
      in snd (consume c (fst (fst body)) (snd (fst body))))"


section \<open>A scenario\<close>

text \<open>
  The payloads of the scenario are Python integers and strings. \<open>str_int\<close> is
  \<^verbatim>\<open>str\<close> on an integer: its decimal digits, after a minus sign for a negative one.
\<close>

datatype pyval = PInt int | PStr string

definition digit_char :: "nat \<Rightarrow> char" where
  "digit_char d = char_of (48 + d)"

function str_nat :: "nat \<Rightarrow> string" where
  "str_nat n = (if n < 10 then [digit_char n] else str_nat (n div 10) @ [digit_char (n mod 10)])"
  by pat_completeness auto
termination
  by (relation "measure id") auto

declare str_nat.simps [simp del]

definition str_int :: "int \<Rightarrow> string" where
  "str_int i = (if i < 0 then CHR ''-'' # str_nat (nat (- i)) else str_nat (nat i))"

text \<open>
  The three workers of the scenario: the first doubles (\<^verbatim>\<open>x * 2\<close>, which repeats a
  string), the second adds one to an integer and raises
  \<^verbatim>\<open>TypeError('not an integer')\<close> on a string, the third converts to a string.
\<close>

fun double_hook :: "pyval \<Rightarrow> py_exc + pyval" where
  "double_hook (PInt n) = Inr (PInt (n * 2))"
| "double_hook (PStr s) = Inr (PStr (s @ s))"

fun add_one_hook :: "pyval \<Rightarrow> py_exc + pyval" where
  "add_one_hook (PInt n) = Inr (PInt (n + 1))"
| "add_one_hook (PStr s) =
     Inl (PyExc (Ordinary TypeError_cls) ''not an integer'')"

fun to_string_hook :: "pyval \<Rightarrow> py_exc + pyval" where
  "to_string_hook (PInt n) = Inr (PStr (str_int n))"
| "to_string_hook (PStr s) = Inr (PStr s)"

text \<open>
  A thread stage with the given class name, hook, disposal behaviour, measured time per
  item and number of slots.
\<close>

definition thread_stage ::
  "string \<Rightarrow> ('a \<Rightarrow> py_exc + 'a) \<Rightarrow> (exception_class \<times> string) option \<Rightarrow> real \<Rightarrow> nat
     \<Rightarrow> 'a stage" where
  "thread_stage nm f d t n =
     \<lparr>worker_class = \<lparr>cls_name = nm, process = f, dispose = d, process_time = (\<lambda>x. t)\<rparr>,
      mode = Thread, worker_count = n\<rparr>"

definition scenario :: "pyval pipeline" where
  "scenario =
     then_stage
       (then_stage (Pipeline (thread_stage ''Double'' double_hook None 1 2))
          (thread_stage ''AddOne'' add_one_hook None 1 2))
       (thread_stage ''ToString'' to_string_hook None 1 2)"

text \<open>
  An environment in which tasks complete in the order they were submitted, slot \<open>k\<close>
  takes the \<open>k\<close>-th disposal task, and no pool operation fails.
\<close>

definition calm :: env where
  "calm = \<lparr>completion = (\<lambda>i k. k), cleanup_slot = (\<lambda>i k. k),
           terminate_exc = (\<lambda>i. None), close_exc = (\<lambda>i. None),
           join_exc = (\<lambda>i. None), terminate_again_exc = (\<lambda>i. None)\<rparr>"

text \<open>
  Further objects for concrete runs: a pipeline object whose stage list has been emptied
  by hand; a worker that raises \<^verbatim>\<open>RuntimeError("Force exit signal received")\<close> on an
  integer; a worker whose \<^verbatim>\<open>__dispose__\<close> raises; a worker whose processing takes no
  measurable time; an environment in which later tasks complete first; and one in
  which slot \<open>0\<close> takes every disposal task.
\<close>

definition no_stages :: "pyval pipeline" where
  "no_stages = \<lparr>stages = [], pools = [], running = False, progress = None\<rparr>"



definition leaky :: "pyval pipeline" where
  "leaky = Pipeline (thread_stage ''Leaky'' double_hook
                       (Some (RuntimeError_cls, ''dispose failed'')) 1 1)"

definition instant :: "pyval pipeline" where
  "instant = Pipeline (thread_stage ''Double'' double_hook None 0 1)"

definition doubling :: "pyval pipeline" where
  "doubling = Pipeline (thread_stage ''Double'' double_hook None 1 2)"

definition adding :: "pyval pipeline" where
  "adding = Pipeline (thread_stage ''AddOne'' add_one_hook None 1 2)"

definition hasty :: env where
  "hasty = calm\<lparr>completion := (\<lambda>i k. 10 - k)\<rparr>"

definition greedy :: env where
  "greedy = calm\<lparr>cleanup_slot := (\<lambda>i k. 0)\<rparr>"

text \<open>
  What the three hooks of the scenario compute where they return, an environment in
  which \<^verbatim>\<open>join\<close> fails on every pool, and one in which the last \<^verbatim>\<open>terminate\<close> of the
  teardown fails on every pool.
\<close>

fun double_fn :: "pyval \<Rightarrow> pyval" where
  "double_fn (PInt n) = PInt (n * 2)"
| "double_fn (PStr s) = PStr (s @ s)"

fun add_one_fn :: "pyval \<Rightarrow> pyval" where
  "add_one_fn (PInt n) = PInt (n + 1)"
| "add_one_fn (PStr s) = PStr s"

fun to_string_fn :: "pyval \<Rightarrow> pyval" where
  "to_string_fn (PInt n) = PStr (str_int n)"
| "to_string_fn (PStr s) = PStr s"



section \<open>Notions used in the statements\<close>

text \<open>
  \<open>behaves_as sts fs x\<close>: on the payload \<open>x\<close> and on what it becomes from stage to
  stage, the hook of each stage returns what the corresponding function of \<open>fs\<close>
  computes, without raising.
\<close>

fun behaves_as :: "'a stage list \<Rightarrow> ('a \<Rightarrow> 'a) list \<Rightarrow> 'a \<Rightarrow> bool" where
  "behaves_as [] [] x = True"
| "behaves_as (st # sts) (f # fs) x =
     (process (worker_class st) x = Inr (f x) \<and> behaves_as sts fs (f x))"
| "behaves_as [] (f # fs) x = False"
| "behaves_as (st # sts) [] x = False"



section \<open>Auxiliary facts\<close>

subsection \<open>Teardown\<close>

lemma stop_pool_returns: "snd (stop_pool env pool) = Inr ()"
  by (simp add: stop_pool_def Let_def try_finally_def try_except_def call_def skip_def
      split: sum.splits option.splits)

lemma stop_pools_loop_returns: "snd (stop_pools_loop env ps) = Inr ()"
  by (induction ps) (simp_all add: skip_def then_act_def stop_pool_returns)

lemma stop_pools_eq:
  "stop_pools env p = (fst (stop_pools_loop env (pools p)), None, p\<lparr>pools := []\<rparr>)"
  using stop_pools_loop_returns [of env "pools p"]
  by (cases "stop_pools_loop env (pools p)") (simp add: stop_pools_def)

subsection \<open>The fields of a run\<close>

lemma stages_init_pools: "stages (snd (init_pools p)) = stages p"
  by (simp add: init_pools_def Let_def)

lemma try_block_proj:
  "fst (fst (try_block env fe sts inputs ord tq))
     = map snd (fst (fst (run_stages env fe ord 0 sts (enumerate 0 (items inputs), None) tq)))"
  "snd (fst (try_block env fe sts inputs ord tq))
     = snd (fst (run_stages env fe ord 0 sts (enumerate 0 (items inputs), None) tq))"
  "fst (snd (try_block env fe sts inputs ord tq))
     = fst (snd (run_stages env fe ord 0 sts (enumerate 0 (items inputs), None) tq))"
  "snd (snd (try_block env fe sts inputs ord tq))
     = snd (snd (run_stages env fe ord 0 sts (enumerate 0 (items inputs), None) tq))"
  by (simp_all add: try_block_def split: prod.splits)

lemma cleanup_fst: "fst (cleanup tq) = close_bars (total_n tq) (progress_bars tq)"
  by (simp add: cleanup_def split: option.splits)

lemma update_keeps_bars:
  "progress_bars (snd (update_stage_progress tq i t)) = progress_bars tq
   \<and> total_n (snd (update_stage_progress tq i t)) = total_n tq"
  by (simp add: update_stage_progress_def Let_def)

lemma process_stage_keeps_bars:
  "progress_bars (snd (process_stage r tq i rs)) = progress_bars tq
   \<and> total_n (snd (process_stage r tq i rs)) = total_n tq"
proof (induction rs arbitrary: tq)
  case Nil
  then show ?case by simp
next
  case (Cons x rs)
  show ?case
  proof (cases x)
    case (Inl e)
    then show ?thesis by simp
  next
    case (Inr t)
    obtain s d pt where t: "t = (s, d, pt)" by (cases t) auto
    obtain r' tq' where u: "update_stage_progress tq i pt = (r', tq')"
      by (cases "update_stage_progress tq i pt")
    with update_keeps_bars [of tq i pt]
    have keep: "progress_bars tq' = progress_bars tq" "total_n tq' = total_n tq"
      by simp_all
    obtain ys err tq'' where ps: "process_stage r tq' i rs = ((ys, err), tq'')"
      by (cases "process_stage r tq' i rs") auto
    with Cons [of tq'] keep
    have keep': "progress_bars tq'' = progress_bars tq" "total_n tq'' = total_n tq"
      by simp_all
    show ?thesis
    proof (cases r)
      case True
      with ps have "process_stage True tq' i rs = ((ys, err), tq'')" by simp
      with True show ?thesis
        by (cases r') (simp_all add: Inr t u keep keep')
    next
      case False
      then show ?thesis by (simp add: Inr t)
    qed
  qed
qed

lemma run_stage_keeps_bars:
  "progress_bars (snd (run_stage env fe ord tq i st src)) = progress_bars tq
   \<and> total_n (snd (run_stage env fe ord tq i st src)) = total_n tq"
  unfolding run_stage_def Let_def by (rule process_stage_keeps_bars)

lemma run_stages_snd:
  "fst (snd (run_stages env fe ord i (st # sts) src tq))
     = fst (snd (run_stages env fe ord (Suc i) sts
              (fst (run_stage env fe ord tq i st src)) (snd (run_stage env fe ord tq i st src))))"
  by (simp split: prod.splits)

lemma run_stages_keeps_bars:
  "progress_bars (fst (snd (run_stages env fe ord i sts src tq))) = progress_bars tq
   \<and> total_n (fst (snd (run_stages env fe ord i sts src tq))) = total_n tq"
proof (induction sts arbitrary: i src tq)
  case Nil
  then show ?case by simp
next
  case (Cons st sts)
  show ?case
    unfolding run_stages_snd
    using Cons.IH [of "Suc i" "fst (run_stage env fe ord tq i st src)"
                      "snd (run_stage env fe ord tq i st src)"]
          run_stage_keeps_bars [of env fe ord tq i st src]
    by simp
qed

lemma try_block_progress:
  "fst (snd (try_block env fe sts inputs ord tq))
     = fst (snd (run_stages env fe ord 0 sts (enumerate 0 (items inputs), None) tq))"
  by (simp add: try_block_def split: prod.splits)

lemma cleanup_after_try:
  "fst (cleanup (fst (snd (try_block env fe sts inputs ord tq)))) = fst (cleanup tq)"
  using run_stages_keeps_bars [of env fe ord 0 sts "(enumerate 0 (items inputs), None)" tq]
  by (simp add: cleanup_fst try_block_progress)

lemma close_bars_total: "close_bars (Some n) bars = None"
  by (induction bars) (simp_all add: tqdm_bool_def)

lemma cleanup_new_progress:
  "fst (cleanup (new_progress p inputs prog))
     = (case prog of
          None \<Rightarrow> None
        | Some m \<Rightarrow> (case len_opt inputs of
                       None \<Rightarrow> Some (PyExc (Ordinary TypeError_cls)
                                       ''bool() undefined when iterable == total == None'')
                     | Some n \<Rightarrow> None))"
  by (cases prog; cases "len_opt inputs")
     (simp_all add: cleanup_fst new_progress_def PipelineTQDM_def init_progress_bars_def
        Let_def tqdm_bool_def close_bars_total)

lemma run_yielded:
  "stages p \<noteq> [] \<Longrightarrow>
   yielded (run env fe p inputs ord prog c)
     = fst (consume c
              (fst (fst (try_block env fe (stages p) inputs ord (new_progress p inputs prog))))
              (snd (fst (try_block env fe (stages p) inputs ord (new_progress p inputs prog)))))"
  by (simp add: run_def Let_def stages_init_pools split: option.splits)

lemma run_force_exit_after:
  "stages p \<noteq> [] \<Longrightarrow>
   force_exit_after (run env fe p inputs ord prog c)
     = fst (handle fe (raised_in_try env fe p inputs ord prog c))"
  by (simp add: run_def raised_in_try_def Let_def stages_init_pools split: option.splits)

lemma run_outcome:
  "stages p \<noteq> [] \<Longrightarrow>
   outcome (run env fe p inputs ord prog c)
     = (case fst (cleanup (new_progress p inputs prog)) of
          Some e \<Rightarrow> Raised (PlainExc e)
        | None \<Rightarrow> snd (handle fe (raised_in_try env fe p inputs ord prog c)))"
  by (simp add: run_def raised_in_try_def Let_def stages_init_pools stop_pools_eq
      cleanup_after_try split: option.splits)

lemma run_hook_calls:
  "stages p \<noteq> [] \<Longrightarrow>
   hook_calls (run env fe p inputs ord prog c)
     = snd (snd (try_block env fe (stages p) inputs ord (new_progress p inputs prog)))"
  by (simp add: run_def Let_def stages_init_pools split: option.splits)


lemma run_stages_Cons_fst:
  "fst (run_stages env fe ord i (st # sts) src tq)
     = fst (run_stages env fe ord (Suc i) sts
              (fst (run_stage env fe ord tq i st src)) (snd (run_stage env fe ord tq i st src)))"
  by (simp split: prod.splits)

subsection \<open>Slots that read a true flag\<close>

lemma task_calls_force_exit: "task_calls True w src = []"
  by (simp add: task_calls_def process_item_def)

lemma run_stages_force_exit_calls:
  "snd (snd (run_stages env True ord idx sts src tq)) = []"
  by (induction sts arbitrary: idx src tq) (simp_all add: task_calls_force_exit split: prod.splits)

lemma hook_calls_force_exit: "hook_calls (run env True p inputs ord prog c) = []"
proof (cases "stages p = []")
  case True
  then show ?thesis by (simp add: run_def)
next
  case False
  then show ?thesis
    by (simp add: run_hook_calls try_block_proj run_stages_force_exit_calls)
qed

subsection \<open>Warnings of the teardown\<close>









subsection \<open>Stages whose hooks return\<close>

lemma show_stage_progress_new:
  "show_stage_progress (new_progress p inputs prog) = (prog = Some Progress_stage)"
  by (simp add: new_progress_def PipelineTQDM_def init_progress_bars_def Let_def)

lemma update_quiet:
  "\<not> show_stage_progress tq \<Longrightarrow> update_stage_progress tq i t = (None, tq)"
  by (simp add: update_stage_progress_def)

lemma process_stage_quiet_ok:
  "\<not> show_stage_progress tq \<Longrightarrow>
   process_stage True tq i (map (\<lambda>a. Inr (g a)) xs)
     = ((map (\<lambda>a. (fst (g a), fst (snd (g a)))) xs, None), tq)"
proof (induction xs)
  case Nil
  then show ?case by simp
next
  case (Cons a xs)
  then show ?case by (cases "g a") (simp add: update_quiet)
qed

lemma insort_key_map:
  "insort_key f (g x) (map g xs) = map g (insort_key (\<lambda>a. f (g a)) x xs)"
  by (induction xs) simp_all

lemma sort_key_map: "sort_key f (map g xs) = map g (sort_key (\<lambda>a. f (g a)) xs)"
  by (induction xs) (simp_all add: insort_key_map)

lemma imap_unordered_map: "imap_unordered rank (map h xs) = map h (imap_unordered rank xs)"
proof -
  have "zip (map rank [0..<length xs]) (map h xs)
          = map (\<lambda>a. (fst a, h (snd a))) (zip (map rank [0..<length xs]) xs)"
    by (simp add: zip_map2 split_def)
  then show ?thesis
    by (simp add: imap_unordered_def sort_key_map o_def)
qed

lemma mset_imap_unordered: "mset (imap_unordered rank rs) = mset rs"
proof -
  define zs where "zs = zip (map rank [0..<length rs]) rs"
  have e: "map snd zs = rs"
    by (simp add: zs_def map_snd_zip)
  have "mset (imap_unordered rank rs) = image_mset snd (mset zs)"
    by (simp add: imap_unordered_def zs_def)
  also have "\<dots> = mset (map snd zs)"
    by (simp only: mset_map)
  finally show ?thesis
    by (simp only: e)
qed

lemma set_imap_unordered: "set (imap_unordered rank rs) = set rs"
  using mset_imap_unordered [of rank rs] by (metis set_mset_mset)

lemma task_results_behaved:
  "list_all (\<lambda>a. process w (snd a) = Inr (f (snd a))) xs \<Longrightarrow>
   task_results False w (xs, None)
     = map (\<lambda>a. Inr (fst a, f (snd a), process_time w (snd a))) xs"
  by (simp add: task_results_def process_item_def split_def list_all_iff)

lemma run_stage_behaved:
  assumes "list_all (\<lambda>a. process (worker_class st) (snd a) = Inr (f (snd a))) xs"
    and "\<not> show_stage_progress tq"
  shows "run_stage env False ord tq i st (xs, None)
       = ((map (\<lambda>a. (fst a, f (snd a)))
             (if ord then xs else imap_unordered (completion env i) xs), None), tq)"
  using assms(2)
  by (simp add: run_stage_def task_results_behaved [OF assms(1)] imap_unordered_map
      process_stage_quiet_ok)

lemma run_stage_empty: "run_stage env fe ord tq i st ([], None) = (([], None), tq)"
  by (simp add: run_stage_def task_results_def imap_unordered_def)

lemma run_stages_empty: "fst (run_stages env fe ord i sts ([], None) tq) = ([], None)"
  by (induction sts arbitrary: i)
     (simp_all add: run_stages_Cons_fst run_stage_empty del: run_stages.simps(2))

lemma run_stages_behaved:
  "list_all (\<lambda>a. behaves_as sts fs (snd a)) xs \<Longrightarrow> \<not> show_stage_progress tq \<Longrightarrow>
   snd (fst (run_stages env False ord i sts (xs, None) tq)) = None
   \<and> mset (fst (fst (run_stages env False ord i sts (xs, None) tq)))
       = image_mset (\<lambda>a. (fst a, fold (\<lambda>f. f) fs (snd a))) (mset xs)
   \<and> (ord \<longrightarrow> fst (fst (run_stages env False ord i sts (xs, None) tq))
                = map (\<lambda>a. (fst a, fold (\<lambda>f. f) fs (snd a))) xs)"
proof (induction sts arbitrary: fs xs i)
  case Nil
  show ?case
  proof (cases fs)
    case Nil
    then show ?thesis by simp
  next
    case (Cons f fs')
    with Nil.prems have "xs = []" by (cases xs) simp_all
    then show ?thesis by simp
  qed
next
  case (Cons st sts)
  show ?case
  proof (cases fs)
    case Nil
    with Cons.prems have "xs = []" by (cases xs) simp_all
    then show ?thesis by (simp add: run_stages_empty del: run_stages.simps)
  next
    case fs: (Cons f fs')
    define xs' where "xs' = (if ord then xs else imap_unordered (completion env i) xs)"
    have set_xs': "set xs' = set xs" and mset_xs': "mset xs' = mset xs"
      by (simp_all add: xs'_def set_imap_unordered mset_imap_unordered)
    from Cons.prems(1) fs
    have hd: "list_all (\<lambda>a. process (worker_class st) (snd a) = Inr (f (snd a))) xs"
      and tl: "list_all (\<lambda>a. behaves_as sts fs' (f (snd a))) xs"
      by (simp_all add: list_all_iff)
    from tl set_xs'
    have tl': "list_all (\<lambda>a. behaves_as sts fs' (snd a)) (map (\<lambda>a. (fst a, f (snd a))) xs')"
      by (simp add: list_all_iff)
    have stage: "run_stage env False ord tq i st (xs, None)
                   = ((map (\<lambda>a. (fst a, f (snd a))) xs', None), tq)"
      by (simp add: run_stage_behaved [OF hd Cons.prems(2)] xs'_def)
    have unf: "fst (run_stages env False ord i (st # sts) (xs, None) tq)
                 = fst (run_stages env False ord (Suc i) sts
                          (map (\<lambda>a. (fst a, f (snd a))) xs', None) tq)"
      by (simp add: run_stages_Cons_fst stage del: run_stages.simps)
    note IH = Cons.IH [OF tl' Cons.prems(2), of "Suc i"]
    let ?R = "run_stages env False ord (Suc i) sts (map (\<lambda>a. (fst a, f (snd a))) xs', None) tq"
    from IH have a: "snd (fst ?R) = None"
      and b: "mset (fst (fst ?R))
                = image_mset (\<lambda>a. (fst a, fold (\<lambda>f. f) fs' (snd a)))
                    (mset (map (\<lambda>a. (fst a, f (snd a))) xs'))"
      and c: "ord \<longrightarrow> fst (fst ?R)
                = map (\<lambda>a. (fst a, fold (\<lambda>f. f) fs' (snd a))) (map (\<lambda>a. (fst a, f (snd a))) xs')"
      by blast+
    have b': "mset (fst (fst ?R)) = image_mset (\<lambda>a. (fst a, fold (\<lambda>f. f) fs (snd a))) (mset xs)"
      by (simp add: b mset_xs' fs multiset.map_comp o_def)
    have c': "ord \<longrightarrow> fst (fst ?R) = map (\<lambda>a. (fst a, fold (\<lambda>f. f) fs (snd a))) xs"
    proof
      assume ord
      then have "xs' = xs" by (simp add: xs'_def)
      with c \<open>ord\<close> show "fst (fst ?R) = map (\<lambda>a. (fst a, fold (\<lambda>f. f) fs (snd a))) xs"
        by (simp add: fs o_def)
    qed
    show ?thesis
      unfolding unf using a b' c' by blast
  qed
qed


lemma run_behaved:
  assumes beh: "list_all (behaves_as (stages p) fs) (items inputs)"
    and ne: "stages p \<noteq> []"
    and quiet: "prog \<noteq> Some Progress_stage"
  shows "mset (yielded (run env False p inputs ord prog Exhaust))
           = image_mset (fold (\<lambda>f. f) fs) (mset (items inputs))"
    and "ord \<Longrightarrow> yielded (run env False p inputs ord prog Exhaust)
           = map (fold (\<lambda>f. f) fs) (items inputs)"
    and "outcome (run env False p inputs ord prog Exhaust)
           = (case fst (cleanup (new_progress p inputs prog)) of
                Some e \<Rightarrow> Raised (PlainExc e)
              | None \<Rightarrow> Completed)"
    and "force_exit_after (run env False p inputs ord prog Exhaust) = False"
proof -
  let ?tq = "new_progress p inputs prog"
  let ?R = "run_stages env False ord 0 (stages p) (enumerate 0 (items inputs), None) ?tq"
  have q: "\<not> show_stage_progress ?tq"
    using quiet by (simp add: show_stage_progress_new)
  have "list_all (\<lambda>a. behaves_as (stages p) fs (snd a)) (enumerate 0 (items inputs))"
    using beh by (simp add: list_all_iff)
       (metis map_snd_enumerate list.set_map imageI snd_conv)
  note R = run_stages_behaved [OF this q, of env ord 0]
  from R have err: "snd (fst ?R) = None" by blast
  from R have ms: "mset (fst (fst ?R))
      = image_mset (\<lambda>a. (fst a, fold (\<lambda>f. f) fs (snd a))) (mset (enumerate 0 (items inputs)))"
    by blast
  have y: "yielded (run env False p inputs ord prog Exhaust) = map snd (fst (fst ?R))"
    using ne by (simp add: run_yielded try_block_proj)
  have "mset (map snd (fst (fst ?R)))
          = image_mset (fold (\<lambda>f. f) fs) (mset (map snd (enumerate 0 (items inputs))))"
    by (simp add: ms multiset.map_comp o_def del: map_snd_enumerate)
  then show "mset (yielded (run env False p inputs ord prog Exhaust))
           = image_mset (fold (\<lambda>f. f) fs) (mset (items inputs))"
    by (simp add: y)
  show "yielded (run env False p inputs ord prog Exhaust)
           = map (fold (\<lambda>f. f) fs) (items inputs)" if ord
  proof -
    from R that have "fst (fst ?R)
        = map (\<lambda>a. (fst a, fold (\<lambda>f. f) fs (snd a))) (enumerate 0 (items inputs))"
      by blast
    then have "map snd (fst (fst ?R))
        = map (fold (\<lambda>f. f) fs) (map snd (enumerate 0 (items inputs)))"
      by (simp add: o_def del: map_snd_enumerate)
    then show ?thesis by (simp add: y)
  qed
  have r: "raised_in_try env False p inputs ord prog Exhaust = None"
    by (simp add: raised_in_try_def try_block_proj err)
  show "outcome (run env False p inputs ord prog Exhaust)
           = (case fst (cleanup (new_progress p inputs prog)) of
                Some e \<Rightarrow> Raised (PlainExc e)
              | None \<Rightarrow> Completed)"
    using ne by (simp add: run_outcome r split: option.splits)
  show "force_exit_after (run env False p inputs ord prog Exhaust) = False"
    using ne by (simp add: run_force_exit_after r)
qed

lemma process_stage_all_failed:
  "list_all isl rs \<Longrightarrow> fst (fst (process_stage r tq i rs)) = []"
proof (cases rs)
  case Nil
  then show ?thesis by simp
next
  case (Cons x rs')
  assume "list_all isl rs"
  with Cons obtain e where "x = Inl e" by (cases x) simp_all
  with Cons show ?thesis by simp
qed

lemma task_results_force_exit: "list_all isl (task_results True w src)"
  by (auto simp: task_results_def process_item_def list_all_iff split: option.splits)

lemma run_stage_force_exit: "fst (fst (run_stage env True ord tq i st src)) = []"
proof -
  let ?rs = "task_results True (worker_class st) src"
  have "list_all isl (imap_unordered (completion env i) ?rs)"
    using task_results_force_exit [of "worker_class st" src]
    by (simp add: list_all_iff set_imap_unordered)
  then show ?thesis
    by (simp add: run_stage_def Let_def process_stage_all_failed task_results_force_exit)
qed

lemma run_stages_force_exit:
  "sts \<noteq> [] \<Longrightarrow> fst (fst (run_stages env True ord i sts src tq)) = []"
proof (induction sts arbitrary: i src tq)
  case Nil
  then show ?case by simp
next
  case (Cons st sts)
  show ?case
  proof (cases "sts = []")
    case True
    then show ?thesis
      by (simp add: run_stages_Cons_fst run_stage_force_exit del: run_stages.simps(2))
  next
    case False
    then show ?thesis
      by (simp add: run_stages_Cons_fst Cons.IH del: run_stages.simps(2))
  qed
qed

lemma yielded_force_exit: "yielded (run env True p inputs ord prog c) = []"
proof (cases "stages p = []")
  case True
  then show ?thesis by (simp add: run_def)
next
  case False
  then have "fst (fst (try_block env True (stages p) inputs ord (new_progress p inputs prog))) = []"
    by (simp add: try_block_proj run_stages_force_exit)
  with False show ?thesis
    by (cases c) (simp_all add: run_yielded)
qed

lemma fst_handle: "fst (handle fe r) = (fe \<or> r \<noteq> None)"
  by (cases "(fe, r)" rule: handle.cases) simp_all

lemma force_exit_after_eq:
  "force_exit_after (run env fe p inputs ord prog c)
     = (fe \<or> (stages p \<noteq> [] \<and> raised_in_try env fe p inputs ord prog c \<noteq> None))"
proof (cases "stages p = []")
  case True
  then show ?thesis by (simp add: run_def)
next
  case False
  then show ?thesis by (simp add: run_force_exit_after fst_handle)
qed

lemma run_seq_force_exit:
  "list_all (\<lambda>r. yielded r = [] \<and> hook_calls r = [] \<and> force_exit_after r) (run_seq True reqs)"
proof (induction reqs)
  case Nil
  then show ?case by simp
next
  case (Cons req reqs)
  obtain env p inputs ord prog c where req: "req = (env, p, inputs, ord, prog, c)"
    by (cases req) auto
  have "force_exit_after (run env True p inputs ord prog c)"
    by (simp add: force_exit_after_eq)
  with Cons.IH show ?case
    by (simp add: req yielded_force_exit hook_calls_force_exit)
qed

lemma run_seq_monotone: "fe \<Longrightarrow> list_all force_exit_after (run_seq fe reqs)"
  using run_seq_force_exit [of reqs] by (simp add: list_all_iff)


subsection \<open>Progress objects that draw no stage bars\<close>

lemma process_stage_quiet:
  "\<not> show_stage_progress tq \<Longrightarrow> \<not> show_stage_progress tq' \<Longrightarrow>
   snd (process_stage True tq i rs) = tq
   \<and> fst (process_stage True tq i rs) = fst (process_stage True tq' i rs)"
proof (induction rs)
  case Nil
  then show ?case by simp
next
  case (Cons x rs)
  show ?case
  proof (cases x)
    case (Inl e)
    then show ?thesis by simp
  next
    case (Inr t)
    obtain s d pt where t: "t = (s, d, pt)" by (cases t) auto
    from Cons have a: "snd (process_stage True tq i rs) = tq"
      and b: "fst (process_stage True tq i rs) = fst (process_stage True tq' i rs)"
      by simp_all
    show ?thesis
      using a b Cons.prems
      by (cases "process_stage True tq i rs"; cases "process_stage True tq' i rs")
         (auto simp: Inr t update_quiet)
  qed
qed

lemma run_stage_quiet:
  "\<not> show_stage_progress tq \<Longrightarrow> \<not> show_stage_progress tq' \<Longrightarrow>
   snd (run_stage env fe ord tq i st src) = tq
   \<and> fst (run_stage env fe ord tq i st src) = fst (run_stage env fe ord tq' i st src)"
proof -
  assume q: "\<not> show_stage_progress tq" "\<not> show_stage_progress tq'"
  let ?rs = "task_results fe (worker_class st) src"
  let ?it = "if ord then ?rs else imap_unordered (completion env i) ?rs"
  from process_stage_quiet [OF q, of i ?it]
  show ?thesis
    by (simp add: run_stage_def Let_def)
qed

lemma run_stages_quiet:
  "\<not> show_stage_progress tq \<Longrightarrow> \<not> show_stage_progress tq' \<Longrightarrow>
   fst (run_stages env fe ord i sts src tq) = fst (run_stages env fe ord i sts src tq')"
proof (induction sts arbitrary: i src)
  case Nil
  then show ?case by simp
next
  case (Cons st sts)
  from run_stage_quiet [OF Cons.prems, of env fe ord i st src]
       run_stage_quiet [OF Cons.prems(2) Cons.prems(1), of env fe ord i st src]
  have a: "snd (run_stage env fe ord tq i st src) = tq"
    and b: "snd (run_stage env fe ord tq' i st src) = tq'"
    and c: "fst (run_stage env fe ord tq i st src) = fst (run_stage env fe ord tq' i st src)"
    by simp_all
  show ?case
    using Cons.IH [OF Cons.prems, of "Suc i" "fst (run_stage env fe ord tq' i st src)"]
    by (simp add: run_stages_Cons_fst a b c del: run_stages.simps(2))
qed

lemma progress_total_same_as_none:
  "yielded (run env fe p inputs ord (Some Progress_total) c) = yielded (run env fe p inputs ord None c)
   \<and> force_exit_after (run env fe p inputs ord (Some Progress_total) c)
       = force_exit_after (run env fe p inputs ord None c)"
proof (cases "stages p = []")
  case True
  then show ?thesis by (simp add: run_def)
next
  case False
  have q: "\<not> show_stage_progress (new_progress p inputs (Some Progress_total))"
    "\<not> show_stage_progress (new_progress p inputs None)"
    by (simp_all add: show_stage_progress_new)
  note e = run_stages_quiet [OF q, of env fe ord 0 "stages p" "(enumerate 0 (items inputs), None)"]
  have r: "raised_in_try env fe p inputs ord (Some Progress_total) c
             = raised_in_try env fe p inputs ord None c"
    by (simp add: raised_in_try_def Let_def try_block_proj e)
  from False show ?thesis
    by (simp add: run_yielded run_force_exit_after try_block_proj e r)
qed

subsection \<open>A disposal broadcast in which every slot takes one task\<close>

lemma count_list_map_inj:
  "inj f \<Longrightarrow> count_list (map f ys) (f j) = count_list ys j"
  by (induction ys) (auto dest: injD)

lemma map_cleanup_events:
  "list_all (\<lambda>k. g k < processes pool) ks \<Longrightarrow>
   concat (map (\<lambda>k. fst (cleanup_worker pool (g k))) ks) = map (\<lambda>k. Disposed (pool_idx pool) (g k)) ks"
  by (induction ks) (simp_all add: cleanup_worker_def call_def)

lemma fair_broadcast_disposes_once:
  assumes fair: "mset (map (cleanup_slot env (pool_idx pool)) [0..<processes pool])
                   = mset [0..<processes pool]"
    and j: "j < processes pool"
  shows "count_list (fst (pool_map_cleanup env pool)) (Disposed (pool_idx pool) j) = 1"
proof -
  let ?s = "cleanup_slot env (pool_idx pool)"
  let ?ks = "[0..<processes pool]"
  have "set (map ?s ?ks) = set ?ks"
    using fair by (metis set_mset_mset)
  then have "list_all (\<lambda>k. ?s k < processes pool) ?ks"
    by (auto simp: list_all_iff)
  then have ev: "fst (pool_map_cleanup env pool) = map (Disposed (pool_idx pool)) (map ?s ?ks)"
    by (simp add: pool_map_cleanup_def Let_def o_def map_cleanup_events)
  have "inj (Disposed (pool_idx pool))"
    by (simp add: inj_def)
  then have "count_list (map (Disposed (pool_idx pool)) (map ?s ?ks)) (Disposed (pool_idx pool) j)
               = count_list (map ?s ?ks) j"
    by (rule count_list_map_inj)
  then have "count_list (fst (pool_map_cleanup env pool)) (Disposed (pool_idx pool) j)
               = count_list (map ?s ?ks) j"
    by (simp only: ev)
  also have "\<dots> = count (mset (map ?s ?ks)) j"
    by (simp add: count_mset del: mset_map)
  also have "\<dots> = count (mset ?ks) j"
    by (simp only: fair)
  also have "\<dots> = 1"
    using j distinct_count_atmost_1 [of ?ks] by simp
  finally show ?thesis .
qed

subsection \<open>Two concrete teardowns\<close>

text \<open>
  A pool whose only worker raises \<^verbatim>\<open>RuntimeError("dispose failed")\<close> from
  \<^verbatim>\<open>__dispose__\<close>: the teardown goes on to terminate, close and join the pool, and does
  not raise.
\<close>

lemma dispose_error_passed_over:
  "fst (stop_pools calm (snd (init_pools leaky)))
     = [Disposed 0 0, TerminateCall 0, CloseCall 0, JoinCall 0, TerminateCall 0]
   \<and> fst (snd (stop_pools calm (snd (init_pools leaky)))) = None"
  by code_simp

text \<open>
  A run with \<^verbatim>\<open>progress='total'\<close> on an input without a length: the main bar has no
  total, its truth test in \<^verbatim>\<open>cleanup\<close> raises, and the run, having yielded its output,
  ends in that \<^verbatim>\<open>TypeError\<close> with its pool neither disposed nor terminated.
\<close>

lemma run_without_total_skips_teardown:
  "yielded (run calm False doubling (Unsized [PInt 1]) True (Some Progress_total) Exhaust)
     = [PInt 2]
   \<and> outcome (run calm False doubling (Unsized [PInt 1]) True (Some Progress_total) Exhaust)
       = Raised (PlainExc (PyExc (Ordinary TypeError_cls)
                   ''bool() undefined when iterable == total == None''))
   \<and> events (run calm False doubling (Unsized [PInt 1]) True (Some Progress_total) Exhaust)
       = [PoolCreated 0, WorkerConstructed 0 0, WorkerConstructed 0 1]
   \<and> length (pools (pipeline_after
         (run calm False doubling (Unsized [PInt 1]) True (Some Progress_total) Exhaust))) = 1"
  by code_simp

subsection \<open>Decimal strings of the scenario\<close>

lemma str_int_3: "str_int 3 = ''3''"
  by code_simp

lemma str_int_5: "str_int 5 = ''5''"
  by code_simp

lemma str_int_7: "str_int 7 = ''7''"
  by code_simp

section \<open>The claims\<close>

subsection \<open>Order preservation\<close>

text \<open>
  Claim C1, as the code has it. Let the stages of a pipeline be \<open>K \<ge> 1\<close> in number and
  let their \<^verbatim>\<open>__process__\<close> hooks act, on every input and on what it becomes from stage
  to stage, as the functions \<open>f\<^sub>1, \<dots>, f\<^sub>K\<close> without raising. If the force-exit flag is
  false when \<^verbatim>\<open>run(inputs, ordered_result=True)\<close> starts, the caller receives exactly
  \<open>f\<^sub>K (\<dots> (f\<^sub>1 x))\<close> for each input \<open>x\<close>, in input order, and the generator returns.
\<close>

theorem ordered_run_preserves_order:
  "list_all (behaves_as (stages p) fs) (items inputs) \<Longrightarrow> stages p \<noteq> [] \<Longrightarrow>
   yielded (run env False p inputs True None Exhaust) = map (fold (\<lambda>f. f) fs) (items inputs)
   \<and> outcome (run env False p inputs True None Exhaust) = Completed"
  by (simp add: run_behaved cleanup_new_progress)

text \<open>
  The scenario of the spec: doubling, adding one and converting to a string, on
  \<open>[1, 2, 3]\<close>, yields \<open>["3", "5", "7"]\<close>.
\<close>

theorem ordered_run_preserves_order_witness:
  "list_all (behaves_as (stages scenario) [double_fn, add_one_fn, to_string_fn])
     (items (Sized [PInt 1, PInt 2, PInt 3]))
   \<and> stages scenario \<noteq> []
   \<and> yielded (run calm False scenario (Sized [PInt 1, PInt 2, PInt 3]) True None Exhaust)
       = [PStr ''3'', PStr ''5'', PStr ''7'']"
proof -
  have h1: "list_all (behaves_as (stages scenario) [double_fn, add_one_fn, to_string_fn])
              (items (Sized [PInt 1, PInt 2, PInt 3]))"
    by (simp add: scenario_def then_stage_def Pipeline_def thread_stage_def)
  have h2: "stages scenario \<noteq> []"
    by (simp add: scenario_def then_stage_def Pipeline_def)
  show ?thesis
    using h1 h2 ordered_run_preserves_order [OF h1 h2, of calm]
    by (simp add: str_int_3 str_int_5 str_int_7)
qed

text \<open>
  Without the condition on the flag the claim fails. A run of the scenario on the input
  \<open>["a"]\<close> ends in the \<^verbatim>\<open>TypeError\<close> of the second stage and leaves the flag true; a
  run on \<open>[1, 2, 3]\<close> that follows in the same process yields nothing, although the
  hooks act on these inputs as the three functions.
\<close>

theorem ordered_run_after_failure_counterexample:
  "list_all (behaves_as (stages scenario) [double_fn, add_one_fn, to_string_fn])
     (items (Sized [PInt 1, PInt 2, PInt 3]))
   \<and> yielded (run calm
        (force_exit_after (run calm False scenario (Sized [PStr ''a'']) True None Exhaust))
        scenario (Sized [PInt 1, PInt 2, PInt 3]) True None Exhaust) = []
   \<and> yielded (run calm
        (force_exit_after (run calm False scenario (Sized [PStr ''a'']) True None Exhaust))
        scenario (Sized [PInt 1, PInt 2, PInt 3]) True None Exhaust)
       \<noteq> [PStr ''3'', PStr ''5'', PStr ''7'']"
  by code_simp

subsection \<open>Fail-fast under the force-exit flag\<close>



subsection \<open>The empty pipeline\<close>

text \<open>
  Claim C7. When the stage list of the pipeline is empty, the body of \<^verbatim>\<open>run\<close> raises
  \<^verbatim>\<open>ValueError("Pipeline has no stages")\<close> as its first step: nothing is yielded, no pool
  is created and no other event takes place, and the pipeline object and the flag are
  as before.
\<close>

theorem empty_pipeline_fails_at_entry:
  "stages p = [] \<Longrightarrow>
   outcome (run env fe p inputs ord prog c)
     = Raised (PlainExc (PyExc (Ordinary ValueError_cls) ''Pipeline has no stages''))
   \<and> yielded (run env fe p inputs ord prog c) = []
   \<and> events (run env fe p inputs ord prog c) = []
   \<and> pipeline_after (run env fe p inputs ord prog c) = p
   \<and> force_exit_after (run env fe p inputs ord prog c) = fe"
  by (simp add: run_def)

theorem empty_pipeline_fails_at_entry_witness:
  "stages no_stages = []
   \<and> outcome (run calm False no_stages (Sized [PInt 1]) True None Exhaust)
       = Raised (PlainExc (PyExc (Ordinary ValueError_cls) ''Pipeline has no stages''))
   \<and> events (run calm False no_stages (Sized [PInt 1]) True None Exhaust) = []"
proof -
  have h: "stages no_stages = []"
    by (simp add: no_stages_def)
  show ?thesis
    using h empty_pipeline_fails_at_entry [OF h, of calm False "Sized [PInt 1]" True None Exhaust]
    by simp
qed

subsection \<open>What the controller does with a WorkerException\<close>




subsection \<open>Disposal of workers\<close>

text \<open>
  Claim C3 asks that every constructed worker is disposed exactly once by the end of
  \<^verbatim>\<open>run\<close>. The teardown submits as many disposal tasks as the pool has slots, but the
  pool decides which slot takes each task. In a run of a one-stage pipeline with two
  slots in which slot \<open>0\<close> takes both tasks, the worker of slot \<open>0\<close> is disposed twice
  and the worker of slot \<open>1\<close>, which was constructed, is never disposed. (When every
  slot takes exactly one task of the broadcast, each worker of the pool is disposed
  once: \<open>fair_broadcast_disposes_once\<close>.)
\<close>

theorem greedy_slot_disposes_twice:
  "events (run greedy False doubling (Sized [PInt 1]) True None Exhaust)
     = [PoolCreated 0, WorkerConstructed 0 0, WorkerConstructed 0 1,
        Disposed 0 0, Disposed 0 0, TerminateCall 0, CloseCall 0, JoinCall 0, TerminateCall 0]
   \<and> count_list (events (run greedy False doubling (Sized [PInt 1]) True None Exhaust))
        (WorkerConstructed 0 1) = 1
   \<and> count_list (events (run greedy False doubling (Sized [PInt 1]) True None Exhaust))
        (Disposed 0 1) = 0
   \<and> count_list (events (run greedy False doubling (Sized [PInt 1]) True None Exhaust))
        (Disposed 0 0) = 2"
  by code_simp

subsection \<open>The life of the force-exit flag\<close>

text \<open>
  Claim C5, as the code has it. The flag is false when the module is loaded. A run
  leaves it true exactly when it was true at entry or an exception reached one of the
  two \<^verbatim>\<open>except\<close> clauses of \<^verbatim>\<open>run\<close>: a \<^verbatim>\<open>WorkerException\<close>, any other exception
  raised while the chain is driven, or the \<^verbatim>\<open>GeneratorExit\<close> raised when the caller
  closes the iterator early. Nothing resets it: once true, it is true after every later
  run.
\<close>

theorem force_exit_flag_changes:
  "force_exit_initial = False
   \<and> force_exit_after (run env fe p inputs ord prog c)
       = (fe \<or> (stages p \<noteq> [] \<and> raised_in_try env fe p inputs ord prog c \<noteq> None))
   \<and> (fe \<longrightarrow> list_all force_exit_after (run_seq fe reqs))"
  using force_exit_after_eq [of env fe p inputs ord prog c] run_seq_monotone [of fe reqs]
  by (simp add: force_exit_initial_def)

theorem force_exit_flag_changes_witness:
  "force_exit_after (run calm False scenario (Sized [PStr ''a'']) True None Exhaust) = True
   \<and> force_exit_after (run calm False scenario (Sized [PInt 1]) True None Exhaust) = False
   \<and> list_all force_exit_after
       (run_seq True [(calm, scenario, Sized [PInt 1], True, None, Exhaust)])"
proof -
  have a: "stages scenario \<noteq> []"
    by (simp add: scenario_def then_stage_def Pipeline_def)
  have b: "raised_in_try calm False scenario (Sized [PStr ''a'']) True None Exhaust \<noteq> None"
    by code_simp
  have c: "raised_in_try calm False scenario (Sized [PInt 1]) True None Exhaust = None"
    by code_simp
  show ?thesis
    using a b c
      force_exit_flag_changes [of calm False scenario "Sized [PStr ''a'']" True None Exhaust
        "[(calm, scenario, Sized [PInt 1], True, None, Exhaust)]"]
      force_exit_flag_changes [of calm True scenario "Sized [PInt 1]" True None Exhaust
        "[(calm, scenario, Sized [PInt 1], True, None, Exhaust)]"]
      force_exit_flag_changes [of calm False scenario "Sized [PInt 1]" True None Exhaust "[]"]
    by simp
qed

text \<open>
  The flag is not set by fatal failures only. The scenario on \<open>[1, 2, 3]\<close> runs to the
  end without any failure; the same run, closed by the caller after the first item,
  leaves the flag true.
\<close>

theorem flag_set_without_failure_counterexample:
  "outcome (run calm False scenario (Sized [PInt 1, PInt 2, PInt 3]) True None Exhaust) = Completed
   \<and> yielded (run calm False scenario (Sized [PInt 1, PInt 2, PInt 3]) True None (Abandon 0))
       = [PStr ''3'']
   \<and> force_exit_after (run calm False scenario (Sized [PInt 1, PInt 2, PInt 3]) True None Exhaust)
       = False
   \<and> force_exit_after (run calm False scenario (Sized [PInt 1, PInt 2, PInt 3]) True None (Abandon 0))
       = True"
  by code_simp

subsection \<open>Unordered delivery\<close>

text \<open>
  Claim C6, as the code has it. Let the \<^verbatim>\<open>__process__\<close> hooks of the pipeline act on the
  inputs, and on what they become from stage to stage, as functions that do not raise,
  and let \<^verbatim>\<open>progress\<close> be \<^verbatim>\<open>None\<close> or \<^verbatim>\<open>'total'\<close>. Then, whatever the completion order
  of the tasks and whatever the flag at entry, the payloads yielded with
  \<^verbatim>\<open>ordered_result=False\<close> and those yielded with \<^verbatim>\<open>ordered_result=True\<close> are the same
  multiset.
\<close>

theorem unordered_same_multiset:
  "list_all (behaves_as (stages p) fs) (items inputs) \<Longrightarrow> prog \<noteq> Some Progress_stage \<Longrightarrow>
   mset (yielded (run env fe p inputs False prog Exhaust))
     = mset (yielded (run env' fe p inputs True prog Exhaust))"
proof (cases "stages p = []")
  case True
  then show ?thesis by (simp add: run_def)
next
  case ne: False
  assume beh: "list_all (behaves_as (stages p) fs) (items inputs)"
    and quiet: "prog \<noteq> Some Progress_stage"
  show ?thesis
  proof (cases fe)
    case True
    then show ?thesis by (simp add: yielded_force_exit)
  next
    case False
    then show ?thesis
      by (simp add: run_behaved(1) [OF beh ne quiet])
  qed
qed

theorem unordered_same_multiset_witness:
  "list_all (behaves_as (stages scenario) [double_fn, add_one_fn, to_string_fn])
     (items (Sized [PInt 1, PInt 2, PInt 3]))
   \<and> yielded (run hasty False scenario (Sized [PInt 1, PInt 2, PInt 3]) False None Exhaust)
       = [PStr ''7'', PStr ''5'', PStr ''3'']
   \<and> mset (yielded (run hasty False scenario (Sized [PInt 1, PInt 2, PInt 3]) False None Exhaust))
       = mset (yielded (run calm False scenario (Sized [PInt 1, PInt 2, PInt 3]) True None Exhaust))"
proof -
  have h1: "list_all (behaves_as (stages scenario) [double_fn, add_one_fn, to_string_fn])
              (items (Sized [PInt 1, PInt 2, PInt 3]))"
    by (simp add: scenario_def then_stage_def Pipeline_def thread_stage_def)
  have h2: "(None :: progress_type option) \<noteq> Some Progress_stage"
    by simp
  have y: "yielded (run hasty False scenario (Sized [PInt 1, PInt 2, PInt 3]) False None Exhaust)
       = [PStr ''7'', PStr ''5'', PStr ''3'']"
    by code_simp
  show ?thesis
    using h1 y unordered_same_multiset [OF h1 h2, of hasty False calm]
    by simp
qed

text \<open>
  When a hook raises, the two modes can yield different multisets. The adding stage on
  \<open>[1, "a"]\<close>, with two slots: in order, \<open>2\<close> is yielded before the failure of the
  second item surfaces; when the failing task completes first, the failure surfaces
  before anything is yielded.
\<close>

theorem unordered_failure_counterexample:
  "yielded (run hasty False adding (Sized [PInt 1, PStr ''a'']) True None Exhaust) = [PInt 2]
   \<and> yielded (run hasty False adding (Sized [PInt 1, PStr ''a'']) False None Exhaust) = []
   \<and> mset (yielded (run hasty False adding (Sized [PInt 1, PStr ''a'']) False None Exhaust))
       \<noteq> mset (yielded (run hasty False adding (Sized [PInt 1, PStr ''a'']) True None Exhaust))"
proof -
  have a: "yielded (run hasty False adding (Sized [PInt 1, PStr ''a'']) True None Exhaust) = [PInt 2]"
    by code_simp
  have b: "yielded (run hasty False adding (Sized [PInt 1, PStr ''a'']) False None Exhaust) = []"
    by code_simp
  show ?thesis
    by (simp add: a b)
qed

subsection \<open>Teardown never raises\<close>




subsection \<open>Progress reporting and the output\<close>

text \<open>
  Claim C9 asks that the payloads yielded do not depend on the argument \<^verbatim>\<open>progress\<close>.
  With \<^verbatim>\<open>progress='stage'\<close> and an input that has a length, \<^verbatim>\<open>update_stage_progress\<close>
  computes \<^verbatim>\<open>rate = 1 / avg_time if avg_time > 0 else 0\<close> and then, for a rate below
  one, \<^verbatim>\<open>1/rate\<close>. When the first item of a stage is measured at zero seconds the rate
  is zero, the division raises \<^verbatim>\<open>ZeroDivisionError\<close>, and the run that yields \<open>[2]\<close>
  under \<^verbatim>\<open>None\<close> and \<^verbatim>\<open>'total'\<close> yields nothing and raises. (Between \<^verbatim>\<open>None\<close> and
  \<^verbatim>\<open>'total'\<close> the payloads yielded never differ: \<open>progress_total_same_as_none\<close>.)
\<close>

theorem stage_progress_changes_output:
  "yielded (run calm False instant (Sized [PInt 1]) True None Exhaust) = [PInt 2]
   \<and> outcome (run calm False instant (Sized [PInt 1]) True None Exhaust) = Completed
   \<and> yielded (run calm False instant (Sized [PInt 1]) True (Some Progress_total) Exhaust) = [PInt 2]
   \<and> yielded (run calm False instant (Sized [PInt 1]) True (Some Progress_stage) Exhaust) = []
   \<and> outcome (run calm False instant (Sized [PInt 1]) True (Some Progress_stage) Exhaust)
       = Raised (PlainExc (PyExc (Ordinary ZeroDivisionError_cls) ''division by zero''))"
  by code_simp

subsection \<open>Abandoning the iterator\<close>



end
